theory Spec2Isabelle
  imports Main
begin

section \<open>Python values and the classes of \<^verbatim>\<open>expressions.py\<close>\<close>

text \<open>
  The classes of the module, in the order of the file. \<open>Expression\<close>, \<open>Operator\<close> and
  \<open>Terminal\<close> are ordinary classes and can be instantiated; only the seven others have
  a differentiation rule. The class \<^verbatim>\<open>Pow\<close> is written \<open>PowOp\<close>, since \<open>Pow\<close> is the
  powerset of HOL.
\<close>

datatype cls = Expression | Operator | Terminal | Symbol | Number
  | Add | Mul | Sub | Div | PowOp

text \<open>
  A Python value, as far as this module meets one: an integer (the numeric tower
  \<^verbatim>\<open>numbers.Number\<close> is modelled by its integers; floats are outside the model), a
  \<^verbatim>\<open>str\<close>, \<^verbatim>\<open>None\<close>, the singleton \<^verbatim>\<open>NotImplemented\<close>, or an instance
  of one of the classes above with its attribute \<^verbatim>\<open>value\<close> (set by
  \<^verbatim>\<open>Terminal.__init__\<close> only) and its tuple \<^verbatim>\<open>operands\<close>.
\<close>

datatype pyval =
    PyInt int
  | PyStr string
  | PyNone
  | NotImplemented
  | Obj cls "pyval option" "pyval list"

text \<open>
  The exceptions. \<open>TypeError\<close>, \<open>NotImplementedError\<close> carry the message the module
  gives them; a \<open>TypeError\<close> raised by the interpreter itself (no operand accepts the
  operation) carries the fixed text \<open>unsupported\<close> below, its exact wording is not
  modelled. \<open>KeyError\<close> carries the missing key. \<open>Unmodelled\<close> marks a result that
  this model has no value for (a float, the default \<^verbatim>\<open>object.__str__\<close>).
\<close>

datatype error =
    TypeError string
  | NotImplementedError string
  | KeyError pyval
  | IndexError
  | AttributeError string
  | ZeroDivisionError
  | Unmodelled

definition unsupported :: error where
  "unsupported = TypeError ''unsupported operand type(s)''"

definition bind_err :: "error + 'a \<Rightarrow> ('a \<Rightarrow> error + 'b) \<Rightarrow> error + 'b" where
  "bind_err m f = (case m of Inl e \<Rightarrow> Inl e | Inr x \<Rightarrow> f x)"

text \<open>\<^verbatim>\<open>xs[i]\<close> on a tuple, for the indices \<open>0\<close> and \<open>1\<close> the module uses.\<close>

definition index :: "'a list \<Rightarrow> nat \<Rightarrow> error + 'a" where
  "index xs i = (if i < length xs then Inr (xs ! i) else Inl IndexError)"

text \<open>\<^verbatim>\<open>isinstance(v, numbers.Number)\<close>, \<^verbatim>\<open>isinstance(v, str)\<close> and
  \<^verbatim>\<open>isinstance(v, Expression)\<close>.\<close>

fun numeric :: "pyval \<Rightarrow> bool" where
  "numeric (PyInt n) = True"
| "numeric v = False"

fun is_str :: "pyval \<Rightarrow> bool" where
  "is_str (PyStr s) = True"
| "is_str v = False"

fun is_Expression :: "pyval \<Rightarrow> bool" where
  "is_Expression (Obj c v os) = True"
| "is_Expression v = False"

text \<open>\<^verbatim>\<open>type(v).__name__\<close>.\<close>

fun cls_name :: "cls \<Rightarrow> string" where
  "cls_name Expression = ''Expression''"
| "cls_name Operator = ''Operator''"
| "cls_name Terminal = ''Terminal''"
| "cls_name Symbol = ''Symbol''"
| "cls_name Number = ''Number''"
| "cls_name Add = ''Add''"
| "cls_name Mul = ''Mul''"
| "cls_name Sub = ''Sub''"
| "cls_name Div = ''Div''"
| "cls_name PowOp = ''Pow''"

fun type_name :: "pyval \<Rightarrow> string" where
  "type_name (PyInt n) = ''int''"
| "type_name (PyStr s) = ''str''"
| "type_name PyNone = ''NoneType''"
| "type_name NotImplemented = ''NotImplementedType''"
| "type_name (Obj c v os) = cls_name c"

subsection \<open>Constructors\<close>

text \<open>
  \<^verbatim>\<open>Expression.__init__(self, *operands)\<close> stores the operands;
  \<^verbatim>\<open>Terminal.__init__(self, value)\<close> stores the value and calls it with no operand.
  \<^verbatim>\<open>Symbol.__init__\<close> and \<^verbatim>\<open>Number.__init__\<close> check the value first.
\<close>

definition Expression_init :: "cls \<Rightarrow> pyval list \<Rightarrow> pyval" where
  "Expression_init c operands = Obj c None operands"

definition Terminal_init :: "cls \<Rightarrow> pyval \<Rightarrow> pyval" where
  "Terminal_init c v = Obj c (Some v) []"

definition Symbol_init :: "pyval \<Rightarrow> error + pyval" where
  "Symbol_init v =
     (if \<not> is_str v then Inl (TypeError ''Symbol value must be a string.'')
      else Inr (Terminal_init Symbol v))"

definition Number_init :: "pyval \<Rightarrow> error + pyval" where
  "Number_init v =
     (if \<not> numeric v then Inl (TypeError ''Number value must be a number.'')
      else Inr (Terminal_init Number v))"

subsection \<open>The operator methods of \<^verbatim>\<open>Expression\<close>\<close>

text \<open>
  The five operators. \<open>forward k self other\<close> is \<^verbatim>\<open>__add__\<close>, \<^verbatim>\<open>__sub__\<close>,
  \<^verbatim>\<open>__mul__\<close>, \<^verbatim>\<open>__truediv__\<close>, \<^verbatim>\<open>__pow__\<close>: a numeric \<open>other\<close> is wrapped
  in a \<^verbatim>\<open>Number\<close>, and the node is built from \<open>self\<close> and \<open>other\<close> whatever \<open>other\<close>
  is. \<open>reflected k self other\<close> is \<^verbatim>\<open>__radd__\<close> and its four siblings: a numeric
  \<open>other\<close> is wrapped and becomes the left operand, anything else gives
  \<^verbatim>\<open>NotImplemented\<close>. (\<^verbatim>\<open>__rpow__\<close> calls the builtin \<^verbatim>\<open>pow\<close> on the new
  \<^verbatim>\<open>Number\<close>, which is its \<^verbatim>\<open>__pow__\<close>.)
\<close>

datatype binop = BAdd | BSub | BMul | BTruediv | BPow

fun binop_cls :: "binop \<Rightarrow> cls" where
  "binop_cls BAdd = Add"
| "binop_cls BSub = Sub"
| "binop_cls BMul = Mul"
| "binop_cls BTruediv = Div"
| "binop_cls BPow = PowOp"

definition forward :: "binop \<Rightarrow> pyval \<Rightarrow> pyval \<Rightarrow> error + pyval" where
  "forward k self other =
     bind_err (if numeric other then Number_init other else Inr other)
       (\<lambda>other'. Inr (Expression_init (binop_cls k) [self, other']))"

definition reflected :: "binop \<Rightarrow> pyval \<Rightarrow> pyval \<Rightarrow> error + pyval" where
  "reflected k self other =
     (if numeric other then
        bind_err (Number_init other) (\<lambda>n.
          if k = BPow then forward BPow n self
          else Inr (Expression_init (binop_cls k) [n, self]))
      else Inr NotImplemented)"

definition Expression_add :: "pyval \<Rightarrow> pyval \<Rightarrow> error + pyval" where
  "Expression_add = forward BAdd"
definition Expression_radd :: "pyval \<Rightarrow> pyval \<Rightarrow> error + pyval" where
  "Expression_radd = reflected BAdd"
definition Expression_sub :: "pyval \<Rightarrow> pyval \<Rightarrow> error + pyval" where
  "Expression_sub = forward BSub"
definition Expression_rsub :: "pyval \<Rightarrow> pyval \<Rightarrow> error + pyval" where
  "Expression_rsub = reflected BSub"
definition Expression_mul :: "pyval \<Rightarrow> pyval \<Rightarrow> error + pyval" where
  "Expression_mul = forward BMul"
definition Expression_rmul :: "pyval \<Rightarrow> pyval \<Rightarrow> error + pyval" where
  "Expression_rmul = reflected BMul"
definition Expression_truediv :: "pyval \<Rightarrow> pyval \<Rightarrow> error + pyval" where
  "Expression_truediv = forward BTruediv"
definition Expression_rtruediv :: "pyval \<Rightarrow> pyval \<Rightarrow> error + pyval" where
  "Expression_rtruediv = reflected BTruediv"
definition Expression_pow :: "pyval \<Rightarrow> pyval \<Rightarrow> error + pyval" where
  "Expression_pow = forward BPow"
definition Expression_rpow :: "pyval \<Rightarrow> pyval \<Rightarrow> error + pyval" where
  "Expression_rpow = reflected BPow"

text \<open>
  The value of \<^verbatim>\<open>l op r\<close> when neither operand is an \<^verbatim>\<open>Expression\<close>: integer
  arithmetic, concatenation and repetition of strings; true division and a negative
  power of integers give a float, which the model has no value for.
\<close>

definition int_op :: "binop \<Rightarrow> int \<Rightarrow> int \<Rightarrow> error + pyval" where
  "int_op k a b =
     (case k of
        BAdd \<Rightarrow> Inr (PyInt (a + b))
      | BSub \<Rightarrow> Inr (PyInt (a - b))
      | BMul \<Rightarrow> Inr (PyInt (a * b))
      | BTruediv \<Rightarrow> (if b = 0 then Inl ZeroDivisionError else Inl Unmodelled)
      | BPow \<Rightarrow>
          (if 0 \<le> b then Inr (PyInt (a ^ nat b))
           else if a = 0 then Inl ZeroDivisionError else Inl Unmodelled))"

definition repeat :: "string \<Rightarrow> int \<Rightarrow> pyval" where
  "repeat s n = PyStr (concat (replicate (nat n) s))"

definition builtin_op :: "binop \<Rightarrow> pyval \<Rightarrow> pyval \<Rightarrow> error + pyval" where
  "builtin_op k l r =
     (case (l, r) of
        (PyInt a, PyInt b) \<Rightarrow> int_op k a b
      | (PyStr s, PyStr t) \<Rightarrow> (if k = BAdd then Inr (PyStr (s @ t)) else Inl unsupported)
      | (PyStr s, PyInt n) \<Rightarrow> (if k = BMul then Inr (repeat s n) else Inl unsupported)
      | (PyInt n, PyStr s) \<Rightarrow> (if k = BMul then Inr (repeat s n) else Inl unsupported)
      | _ \<Rightarrow> Inl unsupported)"

text \<open>
  The interpreter's evaluation of \<^verbatim>\<open>l op r\<close>. No class of the module overrides a
  reflected method of its base, so the left operand's method is tried first; the methods
  of \<^verbatim>\<open>Expression\<close> never answer \<^verbatim>\<open>NotImplemented\<close> from the left. A builtin left
  operand does not know the classes of the module, so the right operand's reflected
  method decides, and \<^verbatim>\<open>NotImplemented\<close> from it is a \<^verbatim>\<open>TypeError\<close>.
\<close>

definition py_binop :: "binop \<Rightarrow> pyval \<Rightarrow> pyval \<Rightarrow> error + pyval" where
  "py_binop k l r =
     (if is_Expression l then forward k l r
      else if is_Expression r then
        bind_err (reflected k r l)
          (\<lambda>v. if v = NotImplemented then Inl unsupported else Inr v)
      else builtin_op k l r)"

subsection \<open>Rendering\<close>

text \<open>The class attributes \<^verbatim>\<open>precedence\<close> and \<^verbatim>\<open>symbol\<close>; a class without
  one, and a value that is no instance of the module, raise \<^verbatim>\<open>AttributeError\<close>.\<close>

fun cls_precedence :: "cls \<Rightarrow> error + nat" where
  "cls_precedence Terminal = Inr 3"
| "cls_precedence Symbol = Inr 3"
| "cls_precedence Number = Inr 3"
| "cls_precedence Add = Inr 0"
| "cls_precedence Mul = Inr 1"
| "cls_precedence Sub = Inr 0"
| "cls_precedence Div = Inr 1"
| "cls_precedence PowOp = Inr 2"
| "cls_precedence c = Inl (AttributeError ''precedence'')"

fun cls_symbol :: "cls \<Rightarrow> error + string" where
  "cls_symbol Add = Inr ''+''"
| "cls_symbol Mul = Inr ''*''"
| "cls_symbol Sub = Inr ''-''"
| "cls_symbol Div = Inr ''/''"
| "cls_symbol PowOp = Inr ''^''"
| "cls_symbol c = Inl (AttributeError ''symbol'')"

fun precedence :: "pyval \<Rightarrow> error + nat" where
  "precedence (Obj c v os) = cls_precedence c"
| "precedence v = Inl (AttributeError ''precedence'')"

fun symbol :: "pyval \<Rightarrow> error + string" where
  "symbol (Obj c v os) = cls_symbol c"
| "symbol v = Inl (AttributeError ''symbol'')"

text \<open>\<^verbatim>\<open>str\<close> of an integer: its decimal digits, with a sign.\<close>

definition digit :: "nat \<Rightarrow> char" where
  "digit n = ''0123456789'' ! n"

fun str_nat :: "nat \<Rightarrow> string" where
  "str_nat n = (if n < 10 then [digit n] else str_nat (n div 10) @ [digit (n mod 10)])"

declare str_nat.simps [simp del]

definition str_int :: "int \<Rightarrow> string" where
  "str_int n = (if n < 0 then CHR ''-'' # str_nat (nat (- n)) else str_nat (nat n))"

text \<open>
  \<^verbatim>\<open>str(v)\<close>. \<^verbatim>\<open>Terminal.__str__\<close> is \<^verbatim>\<open>str(self.value)\<close>.
  \<^verbatim>\<open>Operator.__str__\<close> joins, with one space, \<^verbatim>\<open>paren(self.operands[0])\<close>,
  \<^verbatim>\<open>self.symbol\<close> and \<^verbatim>\<open>paren(self.operands[1])\<close>, evaluated in this order, where
  \<^verbatim>\<open>paren(expr)\<close> reads \<^verbatim>\<open>expr.precedence\<close>, then \<^verbatim>\<open>self.precedence\<close>, and
  puts \<^verbatim>\<open>str(expr)\<close> in parentheses when the first is less than the second.
  \<^verbatim>\<open>Expression\<close> itself has no \<^verbatim>\<open>__str__\<close>; the default one prints an address.
\<close>

definition paren_str :: "nat \<Rightarrow> nat \<Rightarrow> string \<Rightarrow> string" where
  "paren_str expr_prec self_prec s = (if expr_prec < self_prec then ''('' @ s @ '')'' else s)"

fun py_str :: "pyval \<Rightarrow> error + string" where
  "py_str (PyInt n) = Inr (str_int n)"
| "py_str (PyStr s) = Inr s"
| "py_str PyNone = Inr ''None''"
| "py_str NotImplemented = Inr ''NotImplemented''"
| "py_str (Obj c v os) =
     (if c = Terminal \<or> c = Symbol \<or> c = Number then
        (case v of None \<Rightarrow> Inl (AttributeError ''value'') | Some x \<Rightarrow> py_str x)
      else if c = Expression then Inl Unmodelled
      else
        (case os of [] \<Rightarrow> Inl IndexError | a # rest \<Rightarrow>
        (case precedence a of Inl e \<Rightarrow> Inl e | Inr pa \<Rightarrow>
        (case cls_precedence c of Inl e \<Rightarrow> Inl e | Inr ps \<Rightarrow>
        (case py_str a of Inl e \<Rightarrow> Inl e | Inr sa \<Rightarrow>
        (case cls_symbol c of Inl e \<Rightarrow> Inl e | Inr g \<Rightarrow>
        (case rest of [] \<Rightarrow> Inl IndexError | b # rest' \<Rightarrow>
        (case precedence b of Inl e \<Rightarrow> Inl e | Inr pb \<Rightarrow>
        (case py_str b of Inl e \<Rightarrow> Inl e | Inr sb \<Rightarrow>
           Inr (paren_str pa ps sa @ '' '' @ g @ '' '' @ paren_str pb ps sb))))))))))"

section \<open>Expression graphs\<close>

text \<open>
  \<^verbatim>\<open>postvisitor\<close> keys its dictionary \<^verbatim>\<open>visited\<close> by the objects themselves, and
  no class of the module defines \<^verbatim>\<open>__eq__\<close> or \<^verbatim>\<open>__hash__\<close>: a key is an object's
  identity. The graph handed to \<^verbatim>\<open>postvisitor\<close> is therefore a tree of objects
  that each carry their identity; an object shared by several parents occurs once under
  each of them, with the same identity. \<open>Raw\<close> is an operand that is no instance of
  the module (the operator methods can build such a node).
\<close>

datatype node =
    Node nat cls "pyval option" "node list"
  | Raw pyval

text \<open>The object as a value, for the code that builds new trees from it.\<close>

fun value_of :: "node \<Rightarrow> pyval" where
  "value_of (Node i c v os) = Obj c v (map value_of os)"
| "value_of (Raw v) = v"

type_synonym kwargs = "string \<rightharpoonup> pyval"

section \<open>Differentiation\<close>

text \<open>
  The rules registered with \<^verbatim>\<open>singledispatch\<close>, chosen by the class of \<open>expr\<close>; the
  base function answers for every other class and for a value that is no instance of
  the module. \<open>rs\<close> is the tuple \<^verbatim>\<open>o\<close> of the source, the results for the operands;
  subexpressions are evaluated from left to right. The value of a \<^verbatim>\<open>Symbol\<close> is a
  string, for which \<^verbatim>\<open>==\<close> is equality of values.
\<close>

fun differentiate :: "node \<Rightarrow> pyval list \<Rightarrow> kwargs \<Rightarrow> error + pyval" where
  "differentiate (Raw v) rs kwargs =
     Inl (NotImplementedError (''Cannot differentiate a '' @ type_name v))"
| "differentiate (Node i Number v os) rs kwargs = Inr (PyInt 0)"
| "differentiate (Node i Symbol v os) rs kwargs =
     (case v of None \<Rightarrow> Inl (AttributeError ''value'') | Some x \<Rightarrow>
     (case kwargs ''var'' of None \<Rightarrow> Inl (KeyError (PyStr ''var'')) | Some w \<Rightarrow>
        if x = w then Inr (PyInt 1) else Inr (PyInt 0)))"
| "differentiate (Node i Add v os) rs kwargs =
     bind_err (index rs 0) (\<lambda>d0.
     bind_err (index rs 1) (\<lambda>d1.
       py_binop BAdd d0 d1))"
| "differentiate (Node i Sub v os) rs kwargs =
     bind_err (index rs 0) (\<lambda>d0.
     bind_err (index rs 1) (\<lambda>d1.
       py_binop BSub d0 d1))"
| "differentiate (Node i Mul v os) rs kwargs =
     bind_err (index rs 0) (\<lambda>d0.
     bind_err (index os 1) (\<lambda>e1.
     bind_err (py_binop BMul d0 (value_of e1)) (\<lambda>l.
     bind_err (index rs 1) (\<lambda>d1.
     bind_err (index os 0) (\<lambda>e0.
     bind_err (py_binop BMul d1 (value_of e0)) (\<lambda>r.
       py_binop BAdd l r))))))"
| "differentiate (Node i Div v os) rs kwargs =
     bind_err (index rs 0) (\<lambda>d0.
     bind_err (index os 1) (\<lambda>e1.
     bind_err (py_binop BMul d0 (value_of e1)) (\<lambda>l.
     bind_err (index os 0) (\<lambda>e0.
     bind_err (index rs 1) (\<lambda>d1.
     bind_err (py_binop BMul (value_of e0) d1) (\<lambda>r.
     bind_err (py_binop BSub l r) (\<lambda>num.
     bind_err (index os 1) (\<lambda>e1'.
     bind_err (py_binop BPow (value_of e1') (PyInt 2)) (\<lambda>den.
       py_binop BTruediv num den)))))))))"
| "differentiate (Node i PowOp v os) rs kwargs =
     bind_err (index os 1) (\<lambda>e1.
     bind_err (index os 0) (\<lambda>e0.
     bind_err (index os 1) (\<lambda>e1'.
     bind_err (py_binop BSub (value_of e1') (PyInt 1)) (\<lambda>ex.
     bind_err (py_binop BPow (value_of e0) ex) (\<lambda>p.
     bind_err (py_binop BMul (value_of e1) p) (\<lambda>m.
     bind_err (index rs 0) (\<lambda>d0.
       py_binop BMul m d0)))))))"
| "differentiate (Node i c v os) rs kwargs =
     Inl (NotImplementedError (''Cannot differentiate a '' @ cls_name c))"

section \<open>The traversal\<close>

text \<open>
  \<^verbatim>\<open>o not in visited\<close>: the keys of \<^verbatim>\<open>visited\<close> are instances of the module, which
  no other value equals. \<^verbatim>\<open>visited[o]\<close> raises \<^verbatim>\<open>KeyError\<close> for a missing key.
\<close>

fun in_visited :: "node \<Rightarrow> (nat \<rightharpoonup> 'r) \<Rightarrow> bool" where
  "in_visited (Node i c v os) visited = (case visited i of None \<Rightarrow> False | Some r \<Rightarrow> True)"
| "in_visited (Raw v) visited = False"

fun getitem :: "(nat \<rightharpoonup> 'r) \<Rightarrow> node \<Rightarrow> error + 'r" where
  "getitem visited (Node i c v os) =
     (case visited i of None \<Rightarrow> Inl (KeyError (value_of (Node i c v os))) | Some r \<Rightarrow> Inr r)"
| "getitem visited (Raw v) = Inl (KeyError v)"

fun getitems :: "(nat \<rightharpoonup> 'r) \<Rightarrow> node list \<Rightarrow> error + 'r list" where
  "getitems visited [] = Inr []"
| "getitems visited (n # ns) =
     bind_err (getitem visited n) (\<lambda>r.
     bind_err (getitems visited ns) (\<lambda>rs. Inr (r # rs)))"

text \<open>
  The \<^verbatim>\<open>while\<close> loop of \<^verbatim>\<open>postvisitor\<close>. The stack is a list whose head is the
  top: \<^verbatim>\<open>stack.pop()\<close> takes the head, and appending \<open>e\<close> and then each unvisited
  child leaves the last child on top. Besides \<^verbatim>\<open>visited\<close> the model keeps
  \<open>calls\<close>, the identities of the objects \<open>fn\<close> has been called on, in the order of the
  calls; the source has no such variable, it is what an observer of \<open>fn\<close> would record.
  An exception ends the loop. The graph is finite, yet the loop is defined as a partial
  function: that it returns is a theorem below, not an assumption.
\<close>

partial_function (option) postvisitor_loop ::
  "(node \<Rightarrow> 'r list \<Rightarrow> kwargs \<Rightarrow> error + 'r) \<Rightarrow> kwargs \<Rightarrow> node list \<Rightarrow> (nat \<rightharpoonup> 'r) \<Rightarrow> nat list
     \<Rightarrow> (error + (nat \<rightharpoonup> 'r) \<times> nat list) option" where
  "postvisitor_loop fn kwargs stack visited calls =
     (case stack of
        [] \<Rightarrow> Some (Inr (visited, calls))
      | e # stack' \<Rightarrow>
        (case e of
           Raw v \<Rightarrow> Some (Inl (AttributeError ''operands''))
         | Node i c v os \<Rightarrow>
             let unvisited_children = filter (\<lambda>o'. \<not> in_visited o' visited) os in
             if unvisited_children \<noteq> [] then
               postvisitor_loop fn kwargs (rev unvisited_children @ e # stack') visited calls
             else
               (case bind_err (getitems visited os) (\<lambda>rs. fn e rs kwargs) of
                  Inl err \<Rightarrow> Some (Inl err)
                | Inr r \<Rightarrow>
                    postvisitor_loop fn kwargs stack' (visited(i \<mapsto> r)) (calls @ [i]))))"

text \<open>
  \<^verbatim>\<open>postvisitor(expr, fn, **kwargs)\<close>: the loop from the stack \<open>[expr]\<close> and the
  empty dictionary, then \<^verbatim>\<open>visited[expr]\<close>. \<open>postvisitor_calls\<close> is the record of
  the calls of \<open>fn\<close> in a run that returns.
\<close>

definition postvisitor ::
  "node \<Rightarrow> (node \<Rightarrow> 'r list \<Rightarrow> kwargs \<Rightarrow> error + 'r) \<Rightarrow> kwargs \<Rightarrow> (error + 'r) option" where
  "postvisitor expr fn kwargs =
     map_option (\<lambda>res. bind_err res (\<lambda>(visited, calls). getitem visited expr))
       (postvisitor_loop fn kwargs [expr] Map.empty [])"

definition postvisitor_calls ::
  "node \<Rightarrow> (node \<Rightarrow> 'r list \<Rightarrow> kwargs \<Rightarrow> error + 'r) \<Rightarrow> kwargs \<Rightarrow> (error + nat list) option" where
  "postvisitor_calls expr fn kwargs =
     map_option (\<lambda>res. bind_err res (\<lambda>(visited, calls). Inr calls))
       (postvisitor_loop fn kwargs [expr] Map.empty [])"

section \<open>The specification's rendering contract\<close>

text \<open>
  The data model and the rendering contract in the words of the specification, to be
  compared with \<open>py_str\<close>: an expression is a number, a symbol or an operator of one of
  five kinds with a left and a right operand; numbers and symbols are in precedence tier
  3, \<open>Add\<close> and \<open>Sub\<close> in tier 0, \<open>Mul\<close> and \<open>Div\<close> in tier 1, \<open>Pow\<close> in tier 2; the
  glyphs are \<open>+ - * / ^\<close>; an operator renders as its two sides around its glyph, and a
  side is put in parentheses iff the child's tier is less than the operator's.
\<close>

datatype spec_expr =
    NumberE int
  | SymbolE string
  | OperatorE binop spec_expr spec_expr

fun kind_tier :: "binop \<Rightarrow> nat" where
  "kind_tier BAdd = 0"
| "kind_tier BSub = 0"
| "kind_tier BMul = 1"
| "kind_tier BTruediv = 1"
| "kind_tier BPow = 2"

fun tier :: "spec_expr \<Rightarrow> nat" where
  "tier (NumberE n) = 3"
| "tier (SymbolE s) = 3"
| "tier (OperatorE k l r) = kind_tier k"

fun glyph :: "binop \<Rightarrow> string" where
  "glyph BAdd = ''+''"
| "glyph BSub = ''-''"
| "glyph BMul = ''*''"
| "glyph BTruediv = ''/''"
| "glyph BPow = ''^''"

definition render_side_spec :: "binop \<Rightarrow> spec_expr \<Rightarrow> string \<Rightarrow> string" where
  "render_side_spec k child rendered =
     (if tier child < kind_tier k then ''('' @ rendered @ '')'' else rendered)"

fun render_spec :: "spec_expr \<Rightarrow> string" where
  "render_spec (NumberE n) = str_int n"
| "render_spec (SymbolE s) = s"
| "render_spec (OperatorE k l r) =
     render_side_spec k l (render_spec l) @ '' '' @ glyph k @ '' '' @
     render_side_spec k r (render_spec r)"

text \<open>The object of the module for an expression of the specification: what
  \<^verbatim>\<open>Number(n)\<close>, \<^verbatim>\<open>Symbol(s)\<close> and the class of the operator, called on the two
  operands, construct.\<close>

fun build :: "spec_expr \<Rightarrow> pyval" where
  "build (NumberE n) = Terminal_init Number (PyInt n)"
| "build (SymbolE s) = Terminal_init Symbol (PyStr s)"
| "build (OperatorE k l r) = Expression_init (binop_cls k) [build l, build r]"

section \<open>Well-formed graphs\<close>

text \<open>
  All objects of a graph; two objects with one identity; a graph in which an identity
  names one object (as in the interpreter's memory); a graph with a \<^verbatim>\<open>Symbol\<close> in
  it; and a graph of the data model: numbers, symbols and the five operators with two
  operands each.
\<close>

fun nodes :: "node \<Rightarrow> node list" where
  "nodes (Node i c v os) = Node i c v os # concat (map nodes os)"
| "nodes (Raw v) = [Raw v]"

fun same_identity :: "node \<Rightarrow> node \<Rightarrow> bool" where
  "same_identity (Node i c v os) (Node j c' v' os') = (i = j)"
| "same_identity a b = False"

definition object_graph :: "node \<Rightarrow> bool" where
  "object_graph e =
     (\<forall>a\<in>set (nodes e). \<forall>b\<in>set (nodes e). same_identity a b \<longrightarrow> a = b)"

fun has_symbol :: "node \<Rightarrow> bool" where
  "has_symbol (Node i c v os) = (c = Symbol \<or> (\<exists>o'\<in>set os. has_symbol o'))"
| "has_symbol (Raw v) = False"

fun expression_graph :: "node \<Rightarrow> bool" where
  "expression_graph (Node i c v os) =
     (if c = Number then (case v of Some x \<Rightarrow> numeric x | None \<Rightarrow> False) \<and> os = []
      else if c = Symbol then (case v of Some x \<Rightarrow> is_str x | None \<Rightarrow> False) \<and> os = []
      else c \<in> {Add, Mul, Sub, Div, PowOp} \<and> length os = 2 \<and>
        (\<forall>o'\<in>set os. expression_graph o'))"
| "expression_graph (Raw v) = False"

text \<open>The classes with a registered differentiation rule, in the order of the file.\<close>

definition registered :: "cls list" where
  "registered = [Number, Symbol, Add, Sub, Mul, Div, PowOp]"

text \<open>What a differentiation rule returns: a bare number or an instance of the module.\<close>

definition number_or_Expression :: "pyval \<Rightarrow> bool" where
  "number_or_Expression r = (numeric r \<or> is_Expression r)"

section \<open>The traversal as a recursion over the graph\<close>

text \<open>
  What the loop does between popping an object and storing its result, as a recursive
  function of the object, for the proofs: the children that were not visited when the
  object was popped are pushed and worked off, last child first, each with the dictionary
  its predecessors left; then \<open>fn\<close> is called. The object itself is not looked up.
\<close>

function visit ::
    "(node \<Rightarrow> 'r list \<Rightarrow> kwargs \<Rightarrow> error + 'r) \<Rightarrow> kwargs \<Rightarrow> node
       \<Rightarrow> (nat \<rightharpoonup> 'r) \<times> nat list \<Rightarrow> error + (nat \<rightharpoonup> 'r) \<times> nat list"
  and visit_all ::
    "(node \<Rightarrow> 'r list \<Rightarrow> kwargs \<Rightarrow> error + 'r) \<Rightarrow> kwargs \<Rightarrow> node list
       \<Rightarrow> (nat \<rightharpoonup> 'r) \<times> nat list \<Rightarrow> error + (nat \<rightharpoonup> 'r) \<times> nat list"
where
  "visit fn kwargs (Raw v) s = Inl (AttributeError ''operands'')"
| "visit fn kwargs (Node i c v os) s =
     (case visit_all fn kwargs (rev (filter (\<lambda>o'. \<not> in_visited o' (fst s)) os)) s of
        Inl err \<Rightarrow> Inl err
      | Inr s' \<Rightarrow>
          (case bind_err (getitems (fst s') os) (\<lambda>rs. fn (Node i c v os) rs kwargs) of
             Inl err \<Rightarrow> Inl err
           | Inr r \<Rightarrow> Inr ((fst s')(i \<mapsto> r), snd s' @ [i])))"
| "visit_all fn kwargs [] s = Inr s"
| "visit_all fn kwargs (u # us) s =
     (case visit fn kwargs u s of Inl err \<Rightarrow> Inl err | Inr s' \<Rightarrow> visit_all fn kwargs us s')"
  by pat_completeness auto
termination
proof (relation "measure (\<lambda>x. case x of
    Inl (fn, kw, e, s) \<Rightarrow> 2 * size e
  | Inr (fn, kw, us, s) \<Rightarrow> 2 * size_list size us + 1)", goal_cases)
  case 1
  show ?case by simp
next
  case (2 fn kwargs i c v os s)
  have "size_list size (rev (filter P xs)) \<le> size_list size xs"
    for P and xs :: "node list"
    by (induction xs) auto
  from this [of "\<lambda>o'. \<not> in_visited o' (fst s)" os] show ?case by simp
next
  case 3
  then show ?case by simp
next
  case 4
  then show ?case by simp
qed

text \<open>
  The invariant of the traversal with \<open>differentiate\<close>: a run fails on a graph iff the
  keyword \<^verbatim>\<open>var\<close> is missing and the graph has a \<^verbatim>\<open>Symbol\<close>; no object of the
  universe \<open>U\<close> that is in the dictionary fails, and every stored result is a number or
  an instance of the module.
\<close>

definition lacks_var :: "kwargs \<Rightarrow> node \<Rightarrow> bool" where
  "lacks_var kwargs e = (kwargs ''var'' = None \<and> has_symbol e)"

definition memo_ok :: "node set \<Rightarrow> kwargs \<Rightarrow> (nat \<rightharpoonup> pyval) \<Rightarrow> bool" where
  "memo_ok U kwargs visited =
     ((\<forall>n\<in>U. in_visited n visited \<longrightarrow> \<not> lacks_var kwargs n) \<and>
      (\<forall>r\<in>ran visited. number_or_Expression r))"

section \<open>Constructors and operators\<close>

lemmas model_defs = bind_err_def index_def py_binop_def forward_def reflected_def
  Number_init_def Symbol_init_def Terminal_init_def Expression_init_def builtin_op_def
  int_op_def

text \<open>
  Claim C9. The terminal constructors check their payload: \<^verbatim>\<open>Symbol(v)\<close> raises
  \<^verbatim>\<open>TypeError\<close> whenever \<open>v\<close> is not a string and \<^verbatim>\<open>Number(v)\<close> raises it whenever
  \<open>v\<close> is not numeric, so that no object is constructed; on a payload of the right kind
  they construct the terminal.
\<close>

theorem terminal_constructors_validate:
  "(\<not> is_str v \<longrightarrow> Symbol_init v = Inl (TypeError ''Symbol value must be a string.'')) \<and>
   (is_str v \<longrightarrow> Symbol_init v = Inr (Obj Symbol (Some v) [])) \<and>
   (\<not> numeric v \<longrightarrow> Number_init v = Inl (TypeError ''Number value must be a number.'')) \<and>
   (numeric v \<longrightarrow> Number_init v = Inr (Obj Number (Some v) []))"
  by (simp add: Symbol_init_def Number_init_def Terminal_init_def)

theorem terminal_constructors_validate_witness:
  "\<not> is_str (PyInt 3) \<and>
   Symbol_init (PyInt 3) = Inl (TypeError ''Symbol value must be a string.'') \<and>
   numeric (PyInt 3) \<and> Number_init (PyInt 3) = Inr (Obj Number (Some (PyInt 3)) []) \<and>
   \<not> numeric (PyStr ''x'') \<and>
   Number_init (PyStr ''x'') = Inl (TypeError ''Number value must be a number.'') \<and>
   is_str (PyStr ''x'') \<and> Symbol_init (PyStr ''x'') = Inr (Obj Symbol (Some (PyStr ''x'')) [])"
  using terminal_constructors_validate [of "PyInt 3"]
    terminal_constructors_validate [of "PyStr ''x''"]
  by simp

text \<open>
  The reflected methods refuse an operand that is not numeric, and the interpreter turns
  their \<^verbatim>\<open>NotImplemented\<close> into a \<^verbatim>\<open>TypeError\<close>: a bad left operand is rejected.
\<close>

lemma reflected_not_numeric:
  "\<not> numeric other \<Longrightarrow> reflected k self other = Inr NotImplemented"
  by (simp add: reflected_def)

lemma bad_left_operand_rejected:
  "\<not> numeric l \<Longrightarrow> \<not> is_Expression l \<Longrightarrow> py_binop k l (Obj c v os) = Inl unsupported"
  by (simp add: py_binop_def reflected_def bind_err_def)

text \<open>
  Claim C5, at the input where the code departs from it. \<^verbatim>\<open>Symbol("x") + "abc"\<close>,
  and likewise with each of the other four operators, raises nothing: the forward method
  wraps a numeric operand and passes anything else on, so an operator node is constructed
  that holds the string as its right operand.
\<close>

theorem forward_accepts_bad_right_operand:
  "py_binop k (Obj Symbol (Some (PyStr ''x'')) []) (PyStr ''abc'') =
     Inr (Obj (binop_cls k) None [Obj Symbol (Some (PyStr ''x'')) [], PyStr ''abc'']) \<and>
   Expression_add (Obj Symbol (Some (PyStr ''x'')) []) (PyStr ''abc'') =
     Inr (Obj Add None [Obj Symbol (Some (PyStr ''x'')) [], PyStr ''abc''])"
  by (simp add: Expression_add_def model_defs)

section \<open>The differentiation rules\<close>

text \<open>
  Claim C7. A node whose class has no registered rule, and likewise a value that is no
  instance of the module, gets the base function: \<^verbatim>\<open>NotImplementedError\<close> with the
  message \<^verbatim>\<open>Cannot differentiate a\<close> followed by the name of the class. No rule is
  used as a default.
\<close>

theorem differentiate_unregistered:
  "(c \<notin> set registered \<longrightarrow>
      differentiate (Node i c v os) rs kwargs =
        Inl (NotImplementedError (''Cannot differentiate a '' @ cls_name c))) \<and>
   differentiate (Raw x) rs kwargs =
     Inl (NotImplementedError (''Cannot differentiate a '' @ type_name x))"
  by (cases c) (simp_all add: registered_def)

theorem differentiate_unregistered_witness:
  "Operator \<notin> set registered \<and>
   differentiate (Node 0 Operator None []) [] Map.empty =
     Inl (NotImplementedError ''Cannot differentiate a Operator'')"
  using differentiate_unregistered [of Operator 0 None "[]" "[]" Map.empty]
  by (simp add: registered_def)

text \<open>
  Claim C1, refuted at its own example. \<^verbatim>\<open>pow(number(2), symbol("x"))\<close>
  differentiated by \<open>x\<close> raises nothing: the traversal returns the tree
  \<open>x * 2 ^ (x - 1) * 0\<close>.
\<close>

theorem variable_exponent_returns_tree:
  "postvisitor
     (Node 2 PowOp None
        [Node 0 Number (Some (PyInt 2)) [], Node 1 Symbol (Some (PyStr ''x'')) []])
     differentiate [''var'' \<mapsto> PyStr ''x''] =
   Some (Inr (Obj Mul None
     [Obj Mul None
        [Obj Symbol (Some (PyStr ''x'')) [],
         Obj PowOp None
           [Obj Number (Some (PyInt 2)) [],
            Obj Sub None [Obj Symbol (Some (PyStr ''x'')) [], Obj Number (Some (PyInt 1)) []]]],
      Obj Number (Some (PyInt 0)) []]))"
  by (simp add: postvisitor_def postvisitor_loop.simps model_defs)

text \<open>
  Claim C1 as amended. The rule for \<^verbatim>\<open>Pow\<close> never fails on account of the exponent:
  for every \<^verbatim>\<open>Pow\<close> node with operands \<open>a\<close> and \<open>b\<close> and every result \<open>da\<close> for \<open>a\<close>,
  whatever \<open>b\<close> and its result \<open>db\<close> are, it returns the tree \<open>b * a ^ (b - 1) * da\<close>, with
  a numeric \<open>da\<close> wrapped in a \<^verbatim>\<open>Number\<close>.
\<close>

theorem pow_rule_ignores_exponent:
  "differentiate (Node i PowOp v [Node ia ca va osa, Node ib cb vb osb]) [da, db] kwargs =
     Inr (Obj Mul None
       [Obj Mul None
          [value_of (Node ib cb vb osb),
           Obj PowOp None
             [value_of (Node ia ca va osa),
              Obj Sub None [value_of (Node ib cb vb osb), Obj Number (Some (PyInt 1)) []]]],
        if numeric da then Obj Number (Some da) [] else da])"
  by (simp add: model_defs)

text \<open>
  Claim C3, refuted. \<^verbatim>\<open>differentiate(pow(symbol("x"), number(3)), "x")\<close> is not the
  tree whose inner exponent is the literal \<^verbatim>\<open>number(2)\<close>.
\<close>

theorem power_rule_exponent_not_literal:
  "postvisitor
     (Node 2 PowOp None
        [Node 0 Symbol (Some (PyStr ''x'')) [], Node 1 Number (Some (PyInt 3)) []])
     differentiate [''var'' \<mapsto> PyStr ''x''] \<noteq>
   Some (Inr (Obj Mul None
     [Obj Mul None
        [Obj Number (Some (PyInt 3)) [],
         Obj PowOp None [Obj Symbol (Some (PyStr ''x'')) [], Obj Number (Some (PyInt 2)) []]],
      Obj Number (Some (PyInt 1)) []]))"
  by (simp add: postvisitor_def postvisitor_loop.simps model_defs)

text \<open>
  Claim C3 as amended. The result is
  \<^verbatim>\<open>mul(mul(number(3), pow(symbol("x"), sub(number(3), number(1)))), number(1))\<close>:
  the exponent of the inner \<^verbatim>\<open>pow\<close> is the unevaluated difference of the literals 3
  and 1.
\<close>

theorem power_rule_shape:
  "postvisitor
     (Node 2 PowOp None
        [Node 0 Symbol (Some (PyStr ''x'')) [], Node 1 Number (Some (PyInt 3)) []])
     differentiate [''var'' \<mapsto> PyStr ''x''] =
   Some (Inr (Obj Mul None
     [Obj Mul None
        [Obj Number (Some (PyInt 3)) [],
         Obj PowOp None
           [Obj Symbol (Some (PyStr ''x'')) [],
            Obj Sub None [Obj Number (Some (PyInt 3)) [], Obj Number (Some (PyInt 1)) []]]],
      Obj Number (Some (PyInt 1)) []]))"
  by (simp add: postvisitor_def postvisitor_loop.simps model_defs)

text \<open>
  Claim C4, refuted. \<^verbatim>\<open>differentiate(number(5), "x")\<close> is not the node
  \<^verbatim>\<open>number(0)\<close>.
\<close>

theorem number_derivative_not_a_node:
  "postvisitor (Node 0 Number (Some (PyInt 5)) []) differentiate [''var'' \<mapsto> PyStr ''x''] \<noteq>
   Some (Inr (Obj Number (Some (PyInt 0)) []))"
  by (simp add: postvisitor_def postvisitor_loop.simps model_defs)

text \<open>
  Claim C8. The rule for \<^verbatim>\<open>Mul\<close> multiplies the result for each operand by the other
  operand as it stands and adds the two products, simplifying nothing: for every
  \<^verbatim>\<open>Mul\<close> node with operands \<open>a\<close> and \<open>b\<close>, whatever they are, and results \<open>da\<close> and
  \<open>db\<close> that are bare numbers or instances of the module, it returns the tree
  \<open>da * b + db * a\<close>, a bare number wrapped in a \<^verbatim>\<open>Number\<close>. In particular
  \<^verbatim>\<open>differentiate(mul(symbol("x"), symbol("x")), "x")\<close> is the tree
  \<^verbatim>\<open>add(mul(1, symbol("x")), mul(1, symbol("x")))\<close>, the literal 1 wrapped in a
  \<^verbatim>\<open>Number\<close> as the combinators do; the derivative of \<open>x * y\<close> by \<open>x\<close> is
  \<open>1 * y + 0 * x\<close>; and that of \<open>(x + y) * x\<close>, whose first operand is itself an
  operator, is \<open>(1 + 0) * x + 1 * (x + y)\<close>, the bare sum \<open>1 + 0\<close> being the integer 1.
\<close>

theorem product_rule_shape:
  "(number_or_Expression da \<and> number_or_Expression db \<longrightarrow>
      differentiate (Node i Mul v [Node ia ca va osa, Node ib cb vb osb]) [da, db] kwargs =
        Inr (Obj Add None
          [Obj Mul None
             [if numeric da then Obj Number (Some da) [] else da,
              value_of (Node ib cb vb osb)],
           Obj Mul None
             [if numeric db then Obj Number (Some db) [] else db,
              value_of (Node ia ca va osa)]])) \<and>
   postvisitor
     (Node 2 Mul None
        [Node 0 Symbol (Some (PyStr ''x'')) [], Node 1 Symbol (Some (PyStr ''x'')) []])
     differentiate [''var'' \<mapsto> PyStr ''x''] =
   Some (Inr (Obj Add None
     [Obj Mul None [Obj Number (Some (PyInt 1)) [], Obj Symbol (Some (PyStr ''x'')) []],
      Obj Mul None [Obj Number (Some (PyInt 1)) [], Obj Symbol (Some (PyStr ''x'')) []]])) \<and>
   postvisitor
     (Node 2 Mul None
        [Node 0 Symbol (Some (PyStr ''x'')) [], Node 1 Symbol (Some (PyStr ''y'')) []])
     differentiate [''var'' \<mapsto> PyStr ''x''] =
   Some (Inr (Obj Add None
     [Obj Mul None [Obj Number (Some (PyInt 1)) [], Obj Symbol (Some (PyStr ''y'')) []],
      Obj Mul None [Obj Number (Some (PyInt 0)) [], Obj Symbol (Some (PyStr ''x'')) []]])) \<and>
   postvisitor
     (Node 4 Mul None
        [Node 2 Add None
           [Node 0 Symbol (Some (PyStr ''x'')) [], Node 1 Symbol (Some (PyStr ''y'')) []],
         Node 3 Symbol (Some (PyStr ''x'')) []])
     differentiate [''var'' \<mapsto> PyStr ''x''] =
   Some (Inr (Obj Add None
     [Obj Mul None [Obj Number (Some (PyInt 1)) [], Obj Symbol (Some (PyStr ''x'')) []],
      Obj Mul None
        [Obj Number (Some (PyInt 1)) [],
         Obj Add None
           [Obj Symbol (Some (PyStr ''x'')) [], Obj Symbol (Some (PyStr ''y'')) []]]]))"
proof -
  have rule: "differentiate (Node i Mul v [Node ia ca va osa, Node ib cb vb osb]) [da, db] kwargs =
      Inr (Obj Add None
        [Obj Mul None
           [if numeric da then Obj Number (Some da) [] else da, value_of (Node ib cb vb osb)],
         Obj Mul None
           [if numeric db then Obj Number (Some db) [] else db, value_of (Node ia ca va osa)]])"
    if "number_or_Expression da" "number_or_Expression db"
    using that by (cases da; cases db) (simp_all add: number_or_Expression_def model_defs)
  have examples: "postvisitor
     (Node 2 Mul None
        [Node 0 Symbol (Some (PyStr ''x'')) [], Node 1 Symbol (Some (PyStr ''x'')) []])
     differentiate [''var'' \<mapsto> PyStr ''x''] =
   Some (Inr (Obj Add None
     [Obj Mul None [Obj Number (Some (PyInt 1)) [], Obj Symbol (Some (PyStr ''x'')) []],
      Obj Mul None [Obj Number (Some (PyInt 1)) [], Obj Symbol (Some (PyStr ''x'')) []]]))"
   "postvisitor
     (Node 2 Mul None
        [Node 0 Symbol (Some (PyStr ''x'')) [], Node 1 Symbol (Some (PyStr ''y'')) []])
     differentiate [''var'' \<mapsto> PyStr ''x''] =
   Some (Inr (Obj Add None
     [Obj Mul None [Obj Number (Some (PyInt 1)) [], Obj Symbol (Some (PyStr ''y'')) []],
      Obj Mul None [Obj Number (Some (PyInt 0)) [], Obj Symbol (Some (PyStr ''x'')) []]]))"
   "postvisitor
     (Node 4 Mul None
        [Node 2 Add None
           [Node 0 Symbol (Some (PyStr ''x'')) [], Node 1 Symbol (Some (PyStr ''y'')) []],
         Node 3 Symbol (Some (PyStr ''x'')) []])
     differentiate [''var'' \<mapsto> PyStr ''x''] =
   Some (Inr (Obj Add None
     [Obj Mul None [Obj Number (Some (PyInt 1)) [], Obj Symbol (Some (PyStr ''x'')) []],
      Obj Mul None
        [Obj Number (Some (PyInt 1)) [],
         Obj Add None
           [Obj Symbol (Some (PyStr ''x'')) [], Obj Symbol (Some (PyStr ''y'')) []]]]))"
    by (simp_all add: postvisitor_def postvisitor_loop.simps model_defs)
  from rule examples show ?thesis by blast
qed

theorem product_rule_shape_witness:
  "number_or_Expression (PyInt 1) \<and>
   number_or_Expression (Obj Sub None [Obj Symbol (Some (PyStr ''z'')) [], Obj Number (Some (PyInt 1)) []]) \<and>
   differentiate
     (Node 4 Mul None
        [Node 2 Add None
           [Node 0 Symbol (Some (PyStr ''x'')) [], Node 1 Number (Some (PyInt 3)) []],
         Node 3 Symbol (Some (PyStr ''y'')) []])
     [PyInt 1, Obj Sub None [Obj Symbol (Some (PyStr ''z'')) [], Obj Number (Some (PyInt 1)) []]] Map.empty =
   Inr (Obj Add None
     [Obj Mul None [Obj Number (Some (PyInt 1)) [], Obj Symbol (Some (PyStr ''y'')) []],
      Obj Mul None
        [Obj Sub None [Obj Symbol (Some (PyStr ''z'')) [], Obj Number (Some (PyInt 1)) []],
         Obj Add None
           [Obj Symbol (Some (PyStr ''x'')) [], Obj Number (Some (PyInt 3)) []]]])"
  using product_rule_shape [of "PyInt 1" "Obj Sub None [Obj Symbol (Some (PyStr ''z'')) [], Obj Number (Some (PyInt 1)) []]" 4 None
      2 Add None "[Node 0 Symbol (Some (PyStr ''x'')) [], Node 1 Number (Some (PyInt 3)) []]"
      3 Symbol "Some (PyStr ''y'')" "[]" Map.empty]
  by (simp add: number_or_Expression_def)

section \<open>The traversal\<close>

text \<open>
  Claim C2, at the input where the code departs from it. In the graph \<open>s + s * 2\<close> the
  symbol \<open>s\<close> (identity 0) is one object with two parents, the sum (identity 3) and the
  product (identity 2). Both push it before it has a result; it is popped twice, and the
  loop, which looks only the children up in \<^verbatim>\<open>visited\<close> and never the popped object,
  calls the fold function on it both times. The fold function here counts nodes.
\<close>

theorem shared_node_folded_twice:
  "postvisitor_calls
     (Node 3 Add None
        [Node 0 Symbol (Some (PyStr ''s'')) [],
         Node 2 Mul None
           [Node 0 Symbol (Some (PyStr ''s'')) [], Node 1 Number (Some (PyInt 2)) []]])
     (\<lambda>e rs kwargs. Inr (Suc (sum_list rs))) Map.empty =
   Some (Inr [1, 0, 2, 0, 3])"
  by (simp add: postvisitor_calls_def postvisitor_loop.simps model_defs)

section \<open>The loop as a recursion\<close>

lemma in_visited_empty: "\<not> in_visited n Map.empty"
  by (cases n) simp_all

lemma in_visited_mono:
  "in_visited n visited \<Longrightarrow> dom visited \<subseteq> dom visited' \<Longrightarrow> in_visited n visited'"
  by (cases n) (auto split: option.splits)

lemma in_visited_getitem: "in_visited n visited \<Longrightarrow> \<exists>r. getitem visited n = Inr r"
  by (cases n) (auto split: option.splits)

lemma getitem_ran: "getitem visited n = Inr r \<Longrightarrow> r \<in> ran visited"
  by (cases n) (auto simp: ran_def split: option.splits)

lemma getitems_in_visited:
  "\<forall>n\<in>set ns. in_visited n visited \<Longrightarrow> \<exists>rs. getitems visited ns = Inr rs"
proof (induction ns)
  case Nil
  show ?case by simp
next
  case (Cons n ns)
  then obtain rs where rs: "getitems visited ns = Inr rs" by auto
  from Cons.prems obtain r where "getitem visited n = Inr r"
    using in_visited_getitem [of n visited] by auto
  with rs show ?case by (simp add: bind_err_def)
qed

lemma getitems_ran:
  "getitems visited ns = Inr rs \<Longrightarrow> length rs = length ns \<and> set rs \<subseteq> ran visited"
proof (induction ns arbitrary: rs)
  case Nil
  then show ?case by simp
next
  case (Cons n ns)
  from Cons.prems obtain r rs' where r: "getitem visited n = Inr r"
    and rs': "getitems visited ns = Inr rs'" and rs: "rs = r # rs'"
    by (auto simp: bind_err_def split: sum.splits)
  from Cons.IH [OF rs'] getitem_ran [OF r] rs show ?case by simp
qed

text \<open>A visit that returns leaves the object in the dictionary and removes no key.\<close>

lemma visit_dom:
  "visit fn kwargs e s = Inr s' \<Longrightarrow> dom (fst s) \<subseteq> dom (fst s') \<and> in_visited e (fst s')"
  "visit_all fn kwargs us s = Inr s' \<Longrightarrow>
     dom (fst s) \<subseteq> dom (fst s') \<and> (\<forall>u\<in>set us. in_visited u (fst s'))"
proof (induction fn kwargs e s and fn kwargs us s arbitrary: s' and s'
    rule: visit_visit_all.induct)
  case (1 fn kwargs v s)
  then show ?case by simp
next
  case (2 fn kwargs i c v os s)
  from "2.prems" obtain t r where
    t: "visit_all fn kwargs (rev (filter (\<lambda>o'. \<not> in_visited o' (fst s)) os)) s = Inr t"
    and s': "s' = ((fst t)(i \<mapsto> r), snd t @ [i])"
    by (auto split: sum.splits)
  from "2.IH" [OF t] have "dom (fst s) \<subseteq> dom (fst t)" by simp
  with s' show ?case by auto
next
  case (3 fn kwargs s)
  then show ?case by simp
next
  case (4 fn kwargs u us s)
  from "4.prems" obtain t where t: "visit fn kwargs u s = Inr t"
    and rest: "visit_all fn kwargs us t = Inr s'"
    by (auto split: sum.splits)
  from "4.IH"(1) [OF t] have a: "dom (fst s) \<subseteq> dom (fst t)" "in_visited u (fst t)"
    by simp_all
  from "4.IH"(2) [OF t rest]
  have b: "dom (fst t) \<subseteq> dom (fst s')" "\<forall>u\<in>set us. in_visited u (fst s')"
    by simp_all
  from a b show ?case by (auto intro: in_visited_mono)
qed

text \<open>After the unvisited children of an object have been worked off, all its children
  are in the dictionary.\<close>

lemma children_visited:
  assumes "visit_all fn kwargs (rev (filter (\<lambda>o'. \<not> in_visited o' (fst s)) os)) s = Inr t"
    and "n \<in> set os"
  shows "in_visited n (fst t)"
proof (cases "in_visited n (fst s)")
  case True
  then show ?thesis using visit_dom(2) [OF assms(1)] by (auto intro: in_visited_mono)
next
  case False
  with assms(2) visit_dom(2) [OF assms(1)] show ?thesis by simp
qed

text \<open>The loop, started with an object on top of the stack, does what \<open>visit\<close> does and
  goes on with the rest of the stack.\<close>

lemma loop_visit:
  "postvisitor_loop fn kwargs (e # stack) (fst s) (snd s) =
     (case visit fn kwargs e s of
        Inl err \<Rightarrow> Some (Inl err)
      | Inr s' \<Rightarrow> postvisitor_loop fn kwargs stack (fst s') (snd s'))"
  "postvisitor_loop fn kwargs (us @ stack) (fst s) (snd s) =
     (case visit_all fn kwargs us s of
        Inl err \<Rightarrow> Some (Inl err)
      | Inr s' \<Rightarrow> postvisitor_loop fn kwargs stack (fst s') (snd s'))"
proof (induction fn kwargs e s and fn kwargs us s arbitrary: stack and stack
    rule: visit_visit_all.induct)
  case (1 fn kwargs v s)
  show ?case by (simp add: postvisitor_loop.simps)
next
  case (2 fn kwargs i c v os s)
  let ?e = "Node i c v os"
  let ?unv = "filter (\<lambda>o'. \<not> in_visited o' (fst s)) os"
  have compute: "postvisitor_loop fn kwargs (?e # stack) (fst t) (snd t) =
      (case bind_err (getitems (fst t) os) (\<lambda>rs. fn ?e rs kwargs) of
         Inl err \<Rightarrow> Some (Inl err)
       | Inr r \<Rightarrow> postvisitor_loop fn kwargs stack ((fst t)(i \<mapsto> r)) (snd t @ [i]))"
    if "filter (\<lambda>o'. \<not> in_visited o' (fst t)) os = []" for t :: "(nat \<rightharpoonup> 'a) \<times> nat list"
    using that by (subst postvisitor_loop.simps) simp
  show ?case
  proof (cases "?unv = []")
    case True
    with compute [of s] show ?thesis by (simp split: sum.splits)
  next
    case False
    then have pushed: "postvisitor_loop fn kwargs (?e # stack) (fst s) (snd s) =
        postvisitor_loop fn kwargs (rev ?unv @ ?e # stack) (fst s) (snd s)"
      by (subst postvisitor_loop.simps) (simp add: Let_def)
    show ?thesis
    proof (cases "visit_all fn kwargs (rev ?unv) s")
      case (Inl err)
      with pushed "2.IH" [of "?e # stack"] show ?thesis by simp
    next
      case (Inr t)
      from children_visited [OF Inr]
      have none: "filter (\<lambda>o'. \<not> in_visited o' (fst t)) os = []"
        by (simp add: filter_empty_conv)
      have "postvisitor_loop fn kwargs (?e # stack) (fst s) (snd s) =
          postvisitor_loop fn kwargs (?e # stack) (fst t) (snd t)"
        using pushed "2.IH" [of "?e # stack"] Inr by simp
      with compute [OF none] Inr show ?thesis by (simp split: sum.splits)
    qed
  qed
next
  case (3 fn kwargs s)
  show ?case by simp
next
  case (4 fn kwargs u us s)
  show ?case
  proof (cases "visit fn kwargs u s")
    case (Inl err)
    with "4.IH"(1) [of "us @ stack"] show ?thesis by simp
  next
    case (Inr t)
    with "4.IH"(1) [of "us @ stack"] "4.IH"(2) [OF Inr, of stack] show ?thesis by simp
  qed
qed

text \<open>
  \<^verbatim>\<open>postvisitor\<close> returns on every graph and every fold function: with a result or
  with the exception of the first call that raised.
\<close>

theorem postvisitor_visit:
  "postvisitor expr fn kwargs =
     Some (bind_err (visit fn kwargs expr (Map.empty, [])) (\<lambda>s. getitem (fst s) expr))"
  using loop_visit(1) [of fn kwargs expr "[]" "(Map.empty, [])"]
  by (simp add: postvisitor_def postvisitor_loop.simps bind_err_def case_prod_beta
      split: sum.splits)

section \<open>Differentiation of a whole graph\<close>

lemma py_binop_value:
  "number_or_Expression a \<Longrightarrow> number_or_Expression b \<Longrightarrow>
   k = BAdd \<or> k = BSub \<or> k = BMul \<or> is_Expression a \<or> is_Expression b \<Longrightarrow>
   \<exists>r. py_binop k a b = Inr r \<and> number_or_Expression r \<and>
     (is_Expression a \<or> is_Expression b \<longrightarrow> is_Expression r)"
  by (cases a; cases b; cases k) (simp_all add: number_or_Expression_def model_defs)

lemma differentiate_operator:
  assumes c: "c \<in> {Add, Mul, Sub, Div, PowOp}"
    and da: "number_or_Expression da" and db: "number_or_Expression db"
  shows "\<exists>r. differentiate (Node i c v [Node ia ca va osa, Node ib cb vb osb]) [da, db] kwargs
      = Inr r \<and> number_or_Expression r"
proof -
  let ?a = "value_of (Node ia ca va osa)" and ?b = "value_of (Node ib cb vb osb)"
  have ea: "is_Expression ?a" "number_or_Expression ?a"
    and eb: "is_Expression ?b" "number_or_Expression ?b"
    by (simp_all add: number_or_Expression_def)
  have one: "number_or_Expression (PyInt 1)" and two: "number_or_Expression (PyInt 2)"
    by (simp_all add: number_or_Expression_def)
  from c consider "c = Add" | "c = Sub" | "c = Mul" | "c = Div" | "c = PowOp" by auto
  then show ?thesis
  proof cases
    case 1
    with py_binop_value [OF da db, of BAdd] show ?thesis
      by (auto simp: bind_err_def index_def)
  next
    case 2
    with py_binop_value [OF da db, of BSub] show ?thesis
      by (auto simp: bind_err_def index_def)
  next
    case 3
    obtain l where l: "py_binop BMul da ?b = Inr l" "number_or_Expression l"
      using py_binop_value [OF da eb(2), of BMul] by auto
    obtain r where r: "py_binop BMul db ?a = Inr r" "number_or_Expression r"
      using py_binop_value [OF db ea(2), of BMul] by auto
    from py_binop_value [OF l(2) r(2), of BAdd]
    obtain x where "py_binop BAdd l r = Inr x" "number_or_Expression x" by auto
    with 3 l r show ?thesis by (simp add: bind_err_def index_def)
  next
    case 4
    obtain l where l: "py_binop BMul da ?b = Inr l" "number_or_Expression l" "is_Expression l"
      using py_binop_value [OF da eb(2), of BMul] eb(1) by auto
    obtain r where r: "py_binop BMul ?a db = Inr r" "number_or_Expression r"
      using py_binop_value [OF ea(2) db, of BMul] by auto
    obtain num where num: "py_binop BSub l r = Inr num" "number_or_Expression num"
        "is_Expression num"
      using py_binop_value [OF l(2) r(2), of BSub] l(3) by auto
    obtain den where den: "py_binop BPow ?b (PyInt 2) = Inr den" "number_or_Expression den"
      using py_binop_value [OF eb(2) two, of BPow] eb(1) by auto
    obtain x where "py_binop BTruediv num den = Inr x" "number_or_Expression x"
      using py_binop_value [OF num(2) den(2), of BTruediv] num(3) by auto
    with 4 l r num den show ?thesis by (simp add: bind_err_def index_def)
  next
    case 5
    obtain ex where ex: "py_binop BSub ?b (PyInt 1) = Inr ex" "number_or_Expression ex"
      using py_binop_value [OF eb(2) one, of BSub] by auto
    obtain p where p: "py_binop BPow ?a ex = Inr p" "number_or_Expression p"
      using py_binop_value [OF ea(2) ex(2), of BPow] ea(1) by auto
    obtain m where m: "py_binop BMul ?b p = Inr m" "number_or_Expression m"
      using py_binop_value [OF eb(2) p(2), of BMul] by auto
    obtain x where "py_binop BMul m da = Inr x" "number_or_Expression x"
      using py_binop_value [OF m(2) da, of BMul] by auto
    with 5 ex p m show ?thesis by (simp add: bind_err_def index_def)
  qed
qed

lemma nodes_self: "e \<in> set (nodes e)"
  by (cases e) simp_all

lemma memo_ok_update:
  assumes ok: "memo_ok U kwargs visited" and r: "number_or_Expression r"
    and e: "Node i c v os \<in> U" "\<not> lacks_var kwargs (Node i c v os)"
    and graph: "kwargs ''var'' = None \<longrightarrow> (\<forall>a\<in>U. \<forall>b\<in>U. same_identity a b \<longrightarrow> a = b)"
  shows "memo_ok U kwargs (visited(i \<mapsto> r))"
proof -
  have "\<not> lacks_var kwargs n" if n: "n \<in> U" "in_visited n (visited(i \<mapsto> r))" for n
  proof (cases "kwargs ''var'' = None")
    case False
    then show ?thesis by (simp add: lacks_var_def)
  next
    case True
    show ?thesis
    proof (cases n)
      case (Node j c' v' os')
      show ?thesis
      proof (cases "j = i")
        case True
        with Node have "same_identity n (Node i c v os)" by simp
        with graph \<open>kwargs ''var'' = None\<close> n(1) e(1) have "n = Node i c v os" by blast
        with e(2) show ?thesis by simp
      next
        case False
        with Node n(2) have "in_visited n visited" by simp
        with ok n(1) show ?thesis by (simp add: memo_ok_def)
      qed
    next
      case (Raw x)
      with n(2) show ?thesis by simp
    qed
  qed
  moreover have "\<forall>x\<in>ran (visited(i \<mapsto> r)). number_or_Expression x"
    using ok r by (auto simp: memo_ok_def ran_def split: if_splits)
  ultimately show ?thesis by (simp add: memo_ok_def)
qed

lemma visit_differentiate:
  assumes graph: "kwargs ''var'' = None \<longrightarrow> (\<forall>a\<in>U. \<forall>b\<in>U. same_identity a b \<longrightarrow> a = b)"
  shows "fn = differentiate \<Longrightarrow> kw = kwargs \<Longrightarrow> expression_graph e \<Longrightarrow>
      set (nodes e) \<subseteq> U \<Longrightarrow> memo_ok U kwargs (fst s) \<Longrightarrow>
      (lacks_var kwargs e \<longrightarrow> visit fn kw e s = Inl (KeyError (PyStr ''var''))) \<and>
      (\<not> lacks_var kwargs e \<longrightarrow> (\<exists>s'. visit fn kw e s = Inr s' \<and> memo_ok U kwargs (fst s')))"
    and "fn = differentiate \<Longrightarrow> kw = kwargs \<Longrightarrow>
      \<forall>u\<in>set us. expression_graph u \<and> set (nodes u) \<subseteq> U \<Longrightarrow> memo_ok U kwargs (fst s) \<Longrightarrow>
      ((\<exists>u\<in>set us. lacks_var kwargs u) \<longrightarrow> visit_all fn kw us s = Inl (KeyError (PyStr ''var''))) \<and>
      ((\<forall>u\<in>set us. \<not> lacks_var kwargs u) \<longrightarrow>
         (\<exists>s'. visit_all fn kw us s = Inr s' \<and> memo_ok U kwargs (fst s')))"
proof (induction fn kw e s and fn kw us s rule: visit_visit_all.induct)
  case (1 fn kw v s)
  then show ?case by simp
next
  case (2 fn kw i c v os s)
  let ?e = "Node i c v os"
  let ?unv = "filter (\<lambda>o'. \<not> in_visited o' (fst s)) os"
  note fn = \<open>fn = differentiate\<close> and kw = \<open>kw = kwargs\<close>
  note eg = \<open>expression_graph ?e\<close> and sub = \<open>set (nodes ?e) \<subseteq> U\<close>
    and ok = \<open>memo_ok U kwargs (fst s)\<close>
  have eU: "?e \<in> U" using sub by auto
  show ?case
  proof (cases "c = Number \<or> c = Symbol")
    case True
    with eg have os: "os = []" by (auto split: if_splits)
    from True eg obtain x where v: "v = Some x" by (auto split: if_splits option.splits)
    show ?thesis
    proof (cases "lacks_var kwargs ?e")
      case True
      with os have "c = Symbol" "kwargs ''var'' = None" by (simp_all add: lacks_var_def)
      with True os v fn kw show ?thesis by (simp add: bind_err_def)
    next
      case False
      from True False os v have "\<exists>n. differentiate ?e [] kwargs = Inr (PyInt n)"
        by (cases "kwargs ''var''") (auto simp: lacks_var_def)
      then obtain n where d: "differentiate ?e [] kwargs = Inr (PyInt n)" ..
      from memo_ok_update [OF ok _ eU False graph, of "PyInt n"]
      have "memo_ok U kwargs ((fst s)(i \<mapsto> PyInt n))" by (simp add: number_or_Expression_def)
      with False os d fn kw show ?thesis by (simp add: bind_err_def)
    qed
  next
    case False
    then have c: "c \<noteq> Number" "c \<noteq> Symbol" by simp_all
    with eg have cop: "c \<in> {Add, Mul, Sub, Div, PowOp}" and len: "length os = 2"
      and egs: "\<forall>o'\<in>set os. expression_graph o'"
      by (auto split: if_splits)
    from len obtain a b where os: "os = [a, b]"
      by (cases os; cases "tl os") auto
    from egs os obtain ia ca va osa ib cb vb osb where
      a: "a = Node ia ca va osa" and b: "b = Node ib cb vb osb"
      by (cases a; cases b) auto
    have kids: "\<forall>u\<in>set (rev ?unv). expression_graph u \<and> set (nodes u) \<subseteq> U"
      using egs sub by auto
    note IH = "2.IH" [OF fn kw kids ok]
    have lv: "lacks_var kwargs ?e \<longleftrightarrow> (\<exists>u\<in>set os. lacks_var kwargs u)"
      using c by (auto simp: lacks_var_def)
    show ?thesis
    proof (cases "lacks_var kwargs ?e")
      case True
      with lv obtain u where u: "u \<in> set os" "lacks_var kwargs u" by auto
      with sub have "u \<in> U" using nodes_self [of u] by auto
      with ok u(2) have "\<not> in_visited u (fst s)" by (auto simp: memo_ok_def)
      with u have "\<exists>u\<in>set (rev ?unv). lacks_var kwargs u" by auto
      with IH have "visit_all fn kw (rev ?unv) s = Inl (KeyError (PyStr ''var''))" by blast
      with True show ?thesis by simp
    next
      case False
      with lv have "\<forall>u\<in>set (rev ?unv). \<not> lacks_var kwargs u" by auto
      with IH obtain t where t: "visit_all fn kw (rev ?unv) s = Inr t"
        and okt: "memo_ok U kwargs (fst t)"
        by blast
      from children_visited [OF t] obtain rs where rs: "getitems (fst t) os = Inr rs"
        using getitems_in_visited [of os "fst t"] by auto
      from getitems_ran [OF rs] os obtain da db where rs2: "rs = [da, db]"
        and "da \<in> ran (fst t)" "db \<in> ran (fst t)"
        by (cases rs; cases "tl rs") auto
      with okt have d: "number_or_Expression da" "number_or_Expression db"
        by (auto simp: memo_ok_def)
      from differentiate_operator [OF cop d, of i v ia ca va osa ib cb vb osb kwargs]
      obtain r where r: "differentiate ?e rs kwargs = Inr r" "number_or_Expression r"
        using os a b rs2 by auto
      from memo_ok_update [OF okt r(2) eU False graph]
      have "memo_ok U kwargs ((fst t)(i \<mapsto> r))" .
      with False t rs r fn kw show ?thesis by (simp add: bind_err_def)
    qed
  qed
next
  case (3 fn kw s)
  then show ?case by simp
next
  case (4 fn kw u us s)
  note fn = \<open>fn = differentiate\<close> and kw = \<open>kw = kwargs\<close>
  note all = \<open>\<forall>u\<in>set (u # us). expression_graph u \<and> set (nodes u) \<subseteq> U\<close>
  note ok = \<open>memo_ok U kwargs (fst s)\<close>
  from all have u: "expression_graph u" "set (nodes u) \<subseteq> U"
    and us: "\<forall>u\<in>set us. expression_graph u \<and> set (nodes u) \<subseteq> U" by simp_all
  note IH1 = "4.IH"(1) [OF fn kw u ok]
  show ?case
  proof (cases "lacks_var kwargs u")
    case True
    with IH1 show ?thesis by simp
  next
    case False
    with IH1 obtain t where t: "visit fn kw u s = Inr t" and okt: "memo_ok U kwargs (fst t)"
      by blast
    from "4.IH"(2) [OF t fn kw us okt] False t show ?thesis by simp
  qed
qed

text \<open>The two outcomes of differentiating a graph of the data model.\<close>

lemma postvisitor_differentiate:
  assumes eg: "expression_graph e"
    and graph: "kwargs ''var'' = None \<longrightarrow> object_graph e"
  shows "(lacks_var kwargs e \<longrightarrow>
            postvisitor e differentiate kwargs = Some (Inl (KeyError (PyStr ''var'')))) \<and>
         (\<not> lacks_var kwargs e \<longrightarrow>
            (\<exists>r. postvisitor e differentiate kwargs = Some (Inr r) \<and> number_or_Expression r))"
proof -
  let ?U = "set (nodes e)"
  have g: "kwargs ''var'' = None \<longrightarrow> (\<forall>a\<in>?U. \<forall>b\<in>?U. same_identity a b \<longrightarrow> a = b)"
    using graph by (simp add: object_graph_def)
  have ok: "memo_ok ?U kwargs (fst (Map.empty, []))"
    by (simp add: memo_ok_def in_visited_empty)
  have v: "(lacks_var kwargs e \<longrightarrow>
        visit differentiate kwargs e (Map.empty, []) = Inl (KeyError (PyStr ''var''))) \<and>
      (\<not> lacks_var kwargs e \<longrightarrow>
        (\<exists>s'. visit differentiate kwargs e (Map.empty, []) = Inr s' \<and> memo_ok ?U kwargs (fst s')))"
    using g eg ok by (intro visit_differentiate(1)) simp_all
  show ?thesis
  proof (cases "lacks_var kwargs e")
    case True
    with v show ?thesis by (simp add: postvisitor_visit bind_err_def)
  next
    case False
    with v obtain s' where s': "visit differentiate kwargs e (Map.empty, []) = Inr s'"
      and ok': "memo_ok ?U kwargs (fst s')" by blast
    from visit_dom(1) [OF s'] obtain r where r: "getitem (fst s') e = Inr r"
      using in_visited_getitem [of e "fst s'"] by auto
    from getitem_ran [OF r] ok' have "number_or_Expression r" by (simp add: memo_ok_def)
    with False s' r show ?thesis by (simp add: postvisitor_visit bind_err_def)
  qed
qed


text \<open>
  Claim C10. The rules other than the one for \<^verbatim>\<open>Symbol\<close> do not read the keyword
  arguments. On a graph of the data model in which an identity names one object,
  differentiated without the keyword \<^verbatim>\<open>var\<close>: with a \<^verbatim>\<open>Symbol\<close> anywhere in the
  graph the traversal raises \<^verbatim>\<open>KeyError('var')\<close>, and with none it returns a result.
\<close>

theorem var_read_by_Symbol_rule_only:
  assumes "expression_graph e" and "object_graph e" and "kwargs ''var'' = None"
  shows "(has_symbol e \<longrightarrow>
            postvisitor e differentiate kwargs = Some (Inl (KeyError (PyStr ''var'')))) \<and>
         (\<not> has_symbol e \<longrightarrow> (\<exists>r. postvisitor e differentiate kwargs = Some (Inr r))) \<and>
         (c \<noteq> Symbol \<longrightarrow>
            differentiate (Node i c v os) rs kwargs = differentiate (Node i c v os) rs kwargs')"
proof -
  have "c \<noteq> Symbol \<longrightarrow>
      differentiate (Node i c v os) rs kwargs = differentiate (Node i c v os) rs kwargs'"
    by (cases c) simp_all
  moreover have "lacks_var kwargs e \<longleftrightarrow> has_symbol e"
    using assms(3) by (simp add: lacks_var_def)
  ultimately show ?thesis
    using postvisitor_differentiate [of e kwargs] assms(1,2) by auto
qed

theorem var_read_by_Symbol_rule_only_witness:
  "expression_graph (Node 2 Add None
      [Node 0 Symbol (Some (PyStr ''x'')) [], Node 1 Number (Some (PyInt 1)) []]) \<and>
   object_graph (Node 2 Add None
      [Node 0 Symbol (Some (PyStr ''x'')) [], Node 1 Number (Some (PyInt 1)) []]) \<and>
   has_symbol (Node 2 Add None
      [Node 0 Symbol (Some (PyStr ''x'')) [], Node 1 Number (Some (PyInt 1)) []]) \<and>
   postvisitor (Node 2 Add None
      [Node 0 Symbol (Some (PyStr ''x'')) [], Node 1 Number (Some (PyInt 1)) []])
     differentiate Map.empty = Some (Inl (KeyError (PyStr ''var''))) \<and>
   expression_graph (Node 2 Mul None
      [Node 0 Number (Some (PyInt 5)) [], Node 1 Number (Some (PyInt 2)) []]) \<and>
   object_graph (Node 2 Mul None
      [Node 0 Number (Some (PyInt 5)) [], Node 1 Number (Some (PyInt 2)) []]) \<and>
   \<not> has_symbol (Node 2 Mul None
      [Node 0 Number (Some (PyInt 5)) [], Node 1 Number (Some (PyInt 2)) []]) \<and>
   (\<exists>r. postvisitor (Node 2 Mul None
      [Node 0 Number (Some (PyInt 5)) [], Node 1 Number (Some (PyInt 2)) []])
     differentiate Map.empty = Some (Inr r))"
proof -
  let ?G = "Node 2 Add None
      [Node 0 Symbol (Some (PyStr ''x'')) [], Node 1 Number (Some (PyInt 1)) []]"
  let ?H = "Node 2 Mul None
      [Node 0 Number (Some (PyInt 5)) [], Node 1 Number (Some (PyInt 2)) []]"
  have G: "expression_graph ?G" "object_graph ?G" "has_symbol ?G"
    by (simp_all add: object_graph_def)
  have H: "expression_graph ?H" "object_graph ?H" "\<not> has_symbol ?H"
    by (simp_all add: object_graph_def)
  have e: "(Map.empty :: kwargs) ''var'' = None" by simp
  from var_read_by_Symbol_rule_only [of ?G Map.empty, OF G(1,2) e]
    var_read_by_Symbol_rule_only [of ?H Map.empty, OF H(1,2) e]
    G H show ?thesis by blast
qed

text \<open>
  Claim C4 as amended. With the keyword \<^verbatim>\<open>var\<close> given, differentiating a graph of the
  data model returns a value that is a bare number or an instance of the module; the
  derivative of \<^verbatim>\<open>number(5)\<close> by \<open>x\<close> is the bare integer 0, that of
  \<^verbatim>\<open>symbol("x")\<close> the bare integer 1 and that of \<^verbatim>\<open>symbol("y")\<close> the bare
  integer 0.
\<close>

theorem terminal_derivatives_are_bare_numbers:
  assumes "expression_graph e" and "kwargs ''var'' = Some w"
  shows "(\<exists>r. postvisitor e differentiate kwargs = Some (Inr r) \<and> number_or_Expression r) \<and>
    postvisitor (Node 0 Number (Some (PyInt 5)) []) differentiate [''var'' \<mapsto> PyStr ''x''] =
      Some (Inr (PyInt 0)) \<and>
    postvisitor (Node 0 Symbol (Some (PyStr ''x'')) []) differentiate [''var'' \<mapsto> PyStr ''x''] =
      Some (Inr (PyInt 1)) \<and>
    postvisitor (Node 0 Symbol (Some (PyStr ''y'')) []) differentiate [''var'' \<mapsto> PyStr ''x''] =
      Some (Inr (PyInt 0))"
proof -
  have "\<not> lacks_var kwargs e" using assms(2) by (simp add: lacks_var_def)
  with postvisitor_differentiate [of e kwargs] assms
  have "\<exists>r. postvisitor e differentiate kwargs = Some (Inr r) \<and> number_or_Expression r"
    by simp
  then show ?thesis
    by (simp add: postvisitor_def postvisitor_loop.simps model_defs)
qed

theorem terminal_derivatives_are_bare_numbers_witness:
  "expression_graph (Node 2 Add None
      [Node 0 Symbol (Some (PyStr ''x'')) [], Node 1 Number (Some (PyInt 1)) []]) \<and>
   [''var'' \<mapsto> PyStr ''x''] ''var'' = Some (PyStr ''x'') \<and>
   (\<exists>r. postvisitor (Node 2 Add None
      [Node 0 Symbol (Some (PyStr ''x'')) [], Node 1 Number (Some (PyInt 1)) []])
     differentiate [''var'' \<mapsto> PyStr ''x''] = Some (Inr r) \<and> number_or_Expression r)"
proof -
  let ?G = "Node 2 Add None
      [Node 0 Symbol (Some (PyStr ''x'')) [], Node 1 Number (Some (PyInt 1)) []]"
  have G: "expression_graph ?G" by simp
  have k: "[''var'' \<mapsto> PyStr ''x''] ''var'' = Some (PyStr ''x'')" by simp
  from terminal_derivatives_are_bare_numbers
    [of ?G "[''var'' \<mapsto> PyStr ''x'']" "PyStr ''x''", OF G k] G k
  show ?thesis by blast
qed

section \<open>Rendering\<close>

lemma precedence_build: "precedence (build e) = Inr (tier e)"
  by (induction e rule: build.induct)
    (simp_all add: Terminal_init_def Expression_init_def, case_tac k, simp_all)

text \<open>
  Claim C6. \<^verbatim>\<open>str\<close> of the object built for an expression is the rendering the
  specification defines: a number as its digits, a symbol as its name, an operator as
  its left side, a space, its glyph, a space and its right side, a side being in
  parentheses iff the precedence of the child is less than that of the operator; a child
  of equal precedence is left bare.
\<close>

theorem str_renders_with_strict_precedence:
  "py_str (build e) = Inr (render_spec e)"
proof (induction e)
  case (NumberE n)
  show ?case by (simp add: Terminal_init_def)
next
  case (SymbolE s)
  show ?case by (simp add: Terminal_init_def)
next
  case (OperatorE k l r)
  have "py_str (Obj (binop_cls k) None [build l, build r]) =
      Inr (paren_str (tier l) (kind_tier k) (render_spec l) @ '' '' @ glyph k @ '' '' @
        paren_str (tier r) (kind_tier k) (render_spec r))"
    using OperatorE by (cases k) (simp_all add: precedence_build)
  then show ?case
    by (simp add: Expression_init_def paren_str_def render_side_spec_def)
qed

theorem str_renders_with_strict_precedence_witness:
  "py_str (build (OperatorE BSub (SymbolE ''a'')
      (OperatorE BSub (SymbolE ''b'') (OperatorE BMul (NumberE 2)
        (OperatorE BAdd (SymbolE ''c'') (NumberE 1)))))) =
   Inr ''a - b - 2 * (c + 1)''"
  using str_renders_with_strict_precedence [of "OperatorE BSub (SymbolE ''a'')
      (OperatorE BSub (SymbolE ''b'') (OperatorE BMul (NumberE 2)
        (OperatorE BAdd (SymbolE ''c'') (NumberE 1))))"]
  by (simp add: render_side_spec_def str_int_def str_nat.simps digit_def)


end
